theory Spec2Isabelle
  imports Main "HOL-Library.Word"
begin

section \<open>Detector nodes of the flooder (detector\_node.cc)\<close>

text \<open>
  The development embeds the five member functions of \<open>pm::DetectorNode\<close> defined in
  \<^verbatim>\<open>src/pymatching/fill_match/flooder/detector_node.cc\<close>:
  \<open>compute_wrapped_radius\<close>, \<open>local_radius\<close>, \<open>has_same_owner_as\<close>, \<open>reset\<close> and
  \<open>index_of_neighbor\<close>.

  Raw pointers are addresses: \<open>None\<close> is \<open>nullptr\<close>, \<open>Some a\<close> is the address \<open>a\<close>.
  Regions live in an explicit store (a partial map from addresses to region objects), so
  that following \<open>blossom_parent\<close> is a store lookup and a walk through the store may fail
  or run forever, as the pointer walk of the source may.
\<close>

subsection \<open>Machine integers and errors\<close>

type_synonym int32 = "32 word"

text \<open>
  \<open>int32_t\<close> is a 32-bit word, read as two's complement by \<open>sint\<close>; addition and
  subtraction wrap around.

  \<open>InvalidArgument\<close> is \<open>std::invalid_argument\<close>. Dereferencing \<open>nullptr\<close> or an
  address that holds no region has no defined result in C++; the model makes each a
  visible error value instead of picking a result.
\<close>

datatype error = InvalidArgument | NullPointer | DanglingPointer

subsection \<open>Varying quantities\<close>

text \<open>
  Modelled from the spec: the class \<open>Varying32\<close> (its header is not among the sources).
  The specification describes a varying quantity as a linear function of the simulation
  time, \<open>value(t) = intercept + rate * t\<close>. The source file uses three of its operations:
  the accessor \<open>y_intercept()\<close>, the construction \<open>Varying32{0}\<close> of the constant zero,
  and \<open>operator+\<close> with an \<open>int32_t\<close> offset, which shifts the quantity by the offset
  and keeps its rate.
\<close>

record Varying32 =
  intercept :: int32
  rate :: int32

definition y_intercept :: "Varying32 \<Rightarrow> int32" where
  "y_intercept v = intercept v"

definition Varying32_const :: "int32 \<Rightarrow> Varying32" where
  "Varying32_const c = \<lparr>intercept = c, rate = 0\<rparr>"

definition varying_plus :: "Varying32 \<Rightarrow> int32 \<Rightarrow> Varying32" where
  "varying_plus v d = v\<lparr>intercept := intercept v + d\<rparr>"

definition get_distance_at_time :: "Varying32 \<Rightarrow> int32 \<Rightarrow> int32" where
  "get_distance_at_time v t = intercept v + rate v * t"

subsection \<open>Regions and nodes\<close>

type_synonym region_ptr = "nat option"
type_synonym node_ptr = "nat option"

text \<open>
  Modelled from the spec: the field declarations of \<open>GraphFillRegion\<close> and
  \<open>DetectorNode\<close> (their headers are not among the sources). Of a region, the source file
  reads \<open>radius\<close> and \<open>blossom_parent\<close>. Of a node it reads or writes every field below
  but \<open>neighbor_weights\<close>, the edge data that the specification stores beside the
  adjacency list. The event tracker is, in the specification's words, the set of currently
  scheduled events referencing the node; \<open>clear()\<close> empties it.
\<close>

record GraphFillRegion =
  radius :: Varying32
  blossom_parent :: region_ptr

type_synonym region_heap = "nat \<rightharpoonup> GraphFillRegion"

record DetectorNode =
  observables_crossed_from_source :: "64 word"
  reached_from_source :: node_ptr
  radius_of_arrival :: int32
  region_that_arrived :: region_ptr
  region_that_arrived_top :: region_ptr
  accumulated_radius_cached :: int32
  node_event_tracker :: "nat set"
  neighbors :: "node_ptr list"
  neighbor_weights :: "int32 list"

definition tracker_clear :: "nat set \<Rightarrow> nat set" where
  "tracker_clear t = {}"

subsection \<open>compute\_wrapped\_radius\<close>

text \<open>
  The \<open>while\<close> loop of \<open>compute_wrapped_radius\<close>, with \<open>rtop\<close> the loop-invariant
  \<open>region_that_arrived_top\<close> and \<open>r\<close>, \<open>tot\<close> the two loop variables (\<open>tot\<close> is
  the source's \<open>total\<close>). The loop may run forever (a cyclic parent chain that misses
  \<open>rtop\<close>); then the value is \<open>None\<close>.
\<close>

partial_function (option) wrapped_radius_loop ::
  "region_heap \<Rightarrow> region_ptr \<Rightarrow> region_ptr \<Rightarrow> int32 \<Rightarrow> (error + int32) option" where
  "wrapped_radius_loop h rtop r tot =
     (if r = rtop then Some (Inr tot)
      else (case r of
              None \<Rightarrow> Some (Inl NullPointer)
            | Some a \<Rightarrow>
                (case h a of
                   None \<Rightarrow> Some (Inl DanglingPointer)
                 | Some reg \<Rightarrow>
                     wrapped_radius_loop h rtop (blossom_parent reg)
                       (tot + y_intercept (radius reg)))))"

declare wrapped_radius_loop.simps [code]

definition compute_wrapped_radius :: "region_heap \<Rightarrow> DetectorNode \<Rightarrow> (error + int32) option" where
  "compute_wrapped_radius h n =
     (if reached_from_source n = None then Some (Inr 0)
      else (case wrapped_radius_loop h (region_that_arrived_top n) (region_that_arrived n) 0 of
              None \<Rightarrow> None
            | Some (Inl e) \<Rightarrow> Some (Inl e)
            | Some (Inr tot) \<Rightarrow> Some (Inr (tot - radius_of_arrival n))))"

text \<open>
  The same loop with a counter of its iterations beside \<open>tot\<close>. The counter is not in
  the source; it is there to state how many times the loop body runs.
\<close>

partial_function (option) wrapped_radius_loop_steps ::
  "region_heap \<Rightarrow> region_ptr \<Rightarrow> region_ptr \<Rightarrow> int32 \<Rightarrow> nat \<Rightarrow> (error + int32 \<times> nat) option" where
  "wrapped_radius_loop_steps h rtop r tot k =
     (if r = rtop then Some (Inr (tot, k))
      else (case r of
              None \<Rightarrow> Some (Inl NullPointer)
            | Some a \<Rightarrow>
                (case h a of
                   None \<Rightarrow> Some (Inl DanglingPointer)
                 | Some reg \<Rightarrow>
                     wrapped_radius_loop_steps h rtop (blossom_parent reg)
                       (tot + y_intercept (radius reg)) (Suc k))))"

declare wrapped_radius_loop_steps.simps [code]

subsection \<open>local\_radius\<close>

text \<open>
  \<open>region_that_arrived_top->radius + compute_wrapped_radius()\<close>: the left operand
  dereferences the top pointer, which the guard has shown to be non-null.
\<close>

definition local_radius :: "region_heap \<Rightarrow> DetectorNode \<Rightarrow> (error + Varying32) option" where
  "local_radius h n =
     (case region_that_arrived_top n of
        None \<Rightarrow> Some (Inr (Varying32_const 0))
      | Some a \<Rightarrow>
          (case h a of
             None \<Rightarrow> Some (Inl DanglingPointer)
           | Some top_region \<Rightarrow>
               (case compute_wrapped_radius h n of
                  None \<Rightarrow> None
                | Some (Inl e) \<Rightarrow> Some (Inl e)
                | Some (Inr w) \<Rightarrow> Some (Inr (varying_plus (radius top_region) w)))))"

subsection \<open>has\_same\_owner\_as, reset, index\_of\_neighbor\<close>

definition has_same_owner_as :: "DetectorNode \<Rightarrow> DetectorNode \<Rightarrow> bool" where
  "has_same_owner_as n other = (region_that_arrived_top n = region_that_arrived_top other)"

definition reset :: "DetectorNode \<Rightarrow> DetectorNode" where
  "reset n =
     n\<lparr>observables_crossed_from_source := 0,
       reached_from_source := None,
       radius_of_arrival := 0,
       region_that_arrived := None,
       region_that_arrived_top := None,
       accumulated_radius_cached := 0,
       node_event_tracker := tracker_clear (node_event_tracker n)\<rparr>"

text \<open>
  The \<open>for\<close> loop of \<open>index_of_neighbor\<close> with its index \<open>k\<close>; falling out of the loop
  reaches the \<open>throw\<close>. The index stays below \<open>neighbors.size()\<close>, so \<open>k++\<close> never wraps.
\<close>

function index_of_neighbor_loop :: "node_ptr list \<Rightarrow> node_ptr \<Rightarrow> nat \<Rightarrow> error + nat" where
  "index_of_neighbor_loop ns target k =
     (if k < length ns
      then (if ns ! k = target then Inr k else index_of_neighbor_loop ns target (Suc k))
      else Inl InvalidArgument)"
  by pat_completeness auto
termination
  by (relation "measure (\<lambda>(ns, target, k). length ns - k)") auto

declare index_of_neighbor_loop.simps [simp del]

definition index_of_neighbor :: "DetectorNode \<Rightarrow> node_ptr \<Rightarrow> error + nat" where
  "index_of_neighbor n target = index_of_neighbor_loop (neighbors n) target 0"

subsection \<open>The blossom hierarchy above a region\<close>

text \<open>
  \<open>ancestor h k r\<close> follows \<open>blossom_parent\<close> pointers \<open>k\<close> times from \<open>r\<close>; it is
  \<open>None\<close> when the walk would leave the store. A pointer \<open>rtop\<close> is reachable from \<open>r\<close>
  when \<open>ancestor h k r = Some rtop\<close> for some \<open>k\<close>.

  \<open>nesting_depth h r rtop d\<close>: the pointer \<open>rtop\<close> is met for the first time after exactly
  \<open>d\<close> parent steps from \<open>r\<close>; \<open>d\<close> is the blossom nesting depth between \<open>r\<close> and \<open>rtop\<close>.

  \<open>frozen_radii h d r\<close> adds the y-intercepts of the first \<open>d\<close> regions on the parent
  chain that starts with \<open>r\<close> itself: for a depth \<open>d\<close> these are the regions from the
  immediate region up to, and without, the top region.
\<close>

fun ancestor :: "region_heap \<Rightarrow> nat \<Rightarrow> region_ptr \<Rightarrow> region_ptr option" where
  "ancestor h 0 r = Some r"
| "ancestor h (Suc k) r =
     (case r of
        None \<Rightarrow> None
      | Some a \<Rightarrow> (case h a of None \<Rightarrow> None | Some reg \<Rightarrow> ancestor h k (blossom_parent reg)))"

fun nesting_depth :: "region_heap \<Rightarrow> region_ptr \<Rightarrow> region_ptr \<Rightarrow> nat \<Rightarrow> bool" where
  "nesting_depth h r rtop 0 = (r = rtop)"
| "nesting_depth h r rtop (Suc d) =
     (r \<noteq> rtop \<and>
      (case r of
         None \<Rightarrow> False
       | Some a \<Rightarrow>
           (case h a of None \<Rightarrow> False | Some reg \<Rightarrow> nesting_depth h (blossom_parent reg) rtop d)))"

fun frozen_radii :: "region_heap \<Rightarrow> nat \<Rightarrow> region_ptr \<Rightarrow> int32" where
  "frozen_radii h 0 r = 0"
| "frozen_radii h (Suc d) r =
     (case r of
        None \<Rightarrow> 0
      | Some a \<Rightarrow>
          (case h a of
             None \<Rightarrow> 0
           | Some reg \<Rightarrow> y_intercept (radius reg) + frozen_radii h d (blossom_parent reg)))"

subsection \<open>The ownership invariant and the node's operations\<close>

definition node_invariant :: "DetectorNode \<Rightarrow> bool" where
  "node_invariant n = ((region_that_arrived_top n \<noteq> None) = (reached_from_source n \<noteq> None))"

text \<open>
  Modelled from the spec: the constructor of \<open>DetectorNode\<close> (declared in the missing
  header). A freshly constructed, never activated node is unreached: no tree pointers, no
  arrival radius, no crossed observables, no cached radius and no scheduled event. Its
  adjacency is what the graph gives it.
\<close>

definition fresh_node :: "node_ptr list \<Rightarrow> int32 list \<Rightarrow> DetectorNode" where
  "fresh_node ns ws =
     \<lparr>observables_crossed_from_source = 0,
      reached_from_source = None,
      radius_of_arrival = 0,
      region_that_arrived = None,
      region_that_arrived_top = None,
      accumulated_radius_cached = 0,
      node_event_tracker = {},
      neighbors = ns,
      neighbor_weights = ws\<rparr>"

text \<open>
  The calls a node can receive. Four of the five member functions are declared \<open>const\<close>
  and leave the node as it is; \<open>reset\<close> is the only one that writes.
\<close>

datatype node_call =
    Call_compute_wrapped_radius
  | Call_local_radius
  | Call_has_same_owner_as DetectorNode
  | Call_reset
  | Call_index_of_neighbor node_ptr

fun node_after :: "node_call \<Rightarrow> DetectorNode \<Rightarrow> DetectorNode" where
  "node_after Call_reset n = reset n"
| "node_after Call_compute_wrapped_radius n = n"
| "node_after Call_local_radius n = n"
| "node_after (Call_has_same_owner_as other) n = n"
| "node_after (Call_index_of_neighbor target) n = n"

subsection \<open>A concrete store and concrete nodes\<close>

text \<open>
  Three regions: region 0 was absorbed into blossom 1 with frozen radius 5, blossom 1 into
  blossom 2 with frozen radius 7, and blossom 2 is the growing root. \<open>example_node\<close> was
  reached by region 0 at radius 2, \<open>example_other\<close> by blossom 1 at radius 4;
  \<open>example_orphan\<close> is \<open>example_node\<close> with its source pointer nulled: it has a top
  region but no source, against the ownership invariant.
\<close>

definition example_heap :: region_heap where
  "example_heap =
     [0 \<mapsto> \<lparr>radius = \<lparr>intercept = 5, rate = 0\<rparr>, blossom_parent = Some 1\<rparr>,
      1 \<mapsto> \<lparr>radius = \<lparr>intercept = 7, rate = 0\<rparr>, blossom_parent = Some 2\<rparr>,
      2 \<mapsto> \<lparr>radius = \<lparr>intercept = - 20, rate = 1\<rparr>, blossom_parent = None\<rparr>]"

definition example_node :: DetectorNode where
  "example_node =
     \<lparr>observables_crossed_from_source = 3,
      reached_from_source = Some 6,
      radius_of_arrival = 2,
      region_that_arrived = Some 0,
      region_that_arrived_top = Some 2,
      accumulated_radius_cached = 9,
      node_event_tracker = {4},
      neighbors = [None, Some 6, Some 8, Some 6],
      neighbor_weights = [3, 4, 5, 6]\<rparr>"

definition example_other :: DetectorNode where
  "example_other =
     \<lparr>observables_crossed_from_source = 0,
      reached_from_source = Some 6,
      radius_of_arrival = 4,
      region_that_arrived = Some 1,
      region_that_arrived_top = Some 2,
      accumulated_radius_cached = 0,
      node_event_tracker = {},
      neighbors = [Some 7],
      neighbor_weights = [4]\<rparr>"

definition example_orphan :: DetectorNode where
  "example_orphan = example_node\<lparr>reached_from_source := None\<rparr>"

section \<open>Properties\<close>

subsection \<open>The ancestor walk\<close>

lemma loop_steps_depth:
  "nesting_depth h r rtop d \<Longrightarrow>
   wrapped_radius_loop_steps h rtop r tot k = Some (Inr (tot + frozen_radii h d r, k + d))"
proof (induction d arbitrary: r tot k)
  case 0
  then show ?case by (simp add: wrapped_radius_loop_steps.simps)
next
  case (Suc d)
  then show ?case
    by (subst wrapped_radius_loop_steps.simps) (auto split: option.splits simp: add.assoc)
qed

lemma loop_depth:
  "nesting_depth h r rtop d \<Longrightarrow>
   wrapped_radius_loop h rtop r tot = Some (Inr (tot + frozen_radii h d r))"
proof (induction d arbitrary: r tot)
  case 0
  then show ?case by (simp add: wrapped_radius_loop.simps)
next
  case (Suc d)
  then show ?case
    by (subst wrapped_radius_loop.simps) (auto split: option.splits simp: add.assoc)
qed

lemma ancestor_depth:
  "ancestor h k r = Some rtop \<Longrightarrow> \<exists>d\<le>k. nesting_depth h r rtop d"
proof (induction k arbitrary: r)
  case 0
  then show ?case by simp
next
  case (Suc k)
  show ?case
  proof (cases "r = rtop")
    case True
    then have "nesting_depth h r rtop 0" by simp
    then show ?thesis by blast
  next
    case False
    from Suc.prems obtain a reg where r: "r = Some a" and ha: "h a = Some reg"
      and anc: "ancestor h k (blossom_parent reg) = Some rtop"
      by (auto split: option.splits)
    from Suc.IH [OF anc] obtain d where "d \<le> k" and "nesting_depth h (blossom_parent reg) rtop d"
      by blast
    with False r ha have "Suc d \<le> Suc k" and "nesting_depth h r rtop (Suc d)" by simp_all
    then show ?thesis by blast
  qed
qed

lemma depth_ancestor:
  "nesting_depth h r rtop d \<Longrightarrow> ancestor h d r = Some rtop"
  by (induction d arbitrary: r) (auto split: option.splits)

lemma depth_least:
  "nesting_depth h r rtop d \<Longrightarrow> j < d \<Longrightarrow> ancestor h j r \<noteq> Some rtop"
proof (induction d arbitrary: r j)
  case 0
  then show ?case by simp
next
  case (Suc d)
  then show ?case by (cases j) (auto split: option.splits)
qed

lemma depth_unique:
  "nesting_depth h r rtop d \<Longrightarrow> nesting_depth h r rtop d' \<Longrightarrow> d = d'"
  by (metis depth_ancestor depth_least linorder_neqE_nat)

text \<open>
  The loop with the iteration counter and the loop of the source agree on every input:
  they return together or run forever together, and what one returns is, the counter
  apart, what the other returns.
\<close>

lemma loop_of_steps:
  assumes "wrapped_radius_loop_steps h rtop r tot k = Some res"
  shows "wrapped_radius_loop h rtop r tot = Some (map_sum (\<lambda>e. e) fst res)"
  using assms
proof (induction rule: wrapped_radius_loop_steps.raw_induct[rotated, consumes 1])
  case (1 f h rtop r tot k res)
  show ?case
  proof (cases "r = rtop")
    case True
    with 1(2) show ?thesis by (subst wrapped_radius_loop.simps) auto
  next
    case False
    with 1(2) show ?thesis
      by (subst wrapped_radius_loop.simps) (auto split: option.splits dest: 1(1))
  qed
qed

lemma steps_of_loop:
  assumes "wrapped_radius_loop h rtop r tot = Some res"
  shows "\<exists>res'. wrapped_radius_loop_steps h rtop r tot k = Some res' \<and>
           map_sum (\<lambda>e. e) fst res' = res"
  using assms
proof (induction arbitrary: k rule: wrapped_radius_loop.raw_induct[rotated, consumes 1])
  case (1 f h rtop r tot res)
  show ?case
  proof (cases "r = rtop")
    case True
    with 1(2) show ?thesis by (subst wrapped_radius_loop_steps.simps) auto
  next
    case False
    with 1(2) show ?thesis
      by (subst wrapped_radius_loop_steps.simps) (auto split: option.splits intro: 1(1))
  qed
qed

lemma loop_steps_agree:
  "wrapped_radius_loop h rtop r tot =
   map_option (map_sum (\<lambda>e. e) fst) (wrapped_radius_loop_steps h rtop r tot k)"
proof (cases "wrapped_radius_loop_steps h rtop r tot k")
  case None
  then show ?thesis
    using steps_of_loop [of h rtop r tot _ k]
    by (cases "wrapped_radius_loop h rtop r tot") auto
next
  case (Some res)
  then show ?thesis by (simp add: loop_of_steps)
qed

subsection \<open>The neighbour scan\<close>

lemma index_of_neighbor_loop_absent:
  "(\<And>j. k \<le> j \<Longrightarrow> j < length ns \<Longrightarrow> ns ! j \<noteq> target) \<Longrightarrow>
   index_of_neighbor_loop ns target k = Inl InvalidArgument"
proof (induction ns target k rule: index_of_neighbor_loop.induct)
  case (1 ns target k)
  show ?case
  proof (cases "k < length ns")
    case True
    with "1.prems" have ne: "ns ! k \<noteq> target" by simp
    have "index_of_neighbor_loop ns target (Suc k) = Inl InvalidArgument"
      using True ne "1.prems" by (intro "1.IH") simp_all
    with True ne show ?thesis by (subst index_of_neighbor_loop.simps) simp
  next
    case False
    then show ?thesis by (subst index_of_neighbor_loop.simps) simp
  qed
qed

lemma index_of_neighbor_loop_first:
  "k \<le> i \<Longrightarrow> i < length ns \<Longrightarrow> ns ! i = target \<Longrightarrow>
   (\<And>j. k \<le> j \<Longrightarrow> j < i \<Longrightarrow> ns ! j \<noteq> target) \<Longrightarrow>
   index_of_neighbor_loop ns target k = Inr i"
proof (induction ns target k rule: index_of_neighbor_loop.induct)
  case (1 ns target k)
  from "1.prems"(1,2) have klt: "k < length ns" by simp
  show ?case
  proof (cases "ns ! k = target")
    case True
    with "1.prems" have "k = i" by (metis le_neq_implies_less order_refl)
    with True klt show ?thesis by (subst index_of_neighbor_loop.simps) simp
  next
    case False
    with "1.prems" have "Suc k \<le> i" by (metis Suc_leI le_neq_implies_less)
    then have "index_of_neighbor_loop ns target (Suc k) = Inr i"
      using klt False "1.prems" by (intro "1.IH") simp_all
    with klt False show ?thesis by (subst index_of_neighbor_loop.simps) simp
  qed
qed

lemma first_occurrence:
  "target \<in> set ns \<Longrightarrow>
   \<exists>i. i < length ns \<and> ns ! i = target \<and> (\<forall>j<i. ns ! j \<noteq> target)"
proof -
  assume "target \<in> set ns"
  then have ex: "\<exists>i. i < length ns \<and> ns ! i = target" by (simp add: in_set_conv_nth)
  define i where "i = (LEAST i. i < length ns \<and> ns ! i = target)"
  from ex have "i < length ns \<and> ns ! i = target"
    unfolding i_def by (rule LeastI_ex)
  moreover have "\<forall>j<i. ns ! j \<noteq> target"
  proof (intro allI impI notI)
    fix j assume "j < i" and "ns ! j = target"
    moreover from \<open>j < i\<close> \<open>i < length ns \<and> ns ! i = target\<close> have "j < length ns" by simp
    ultimately show False unfolding i_def using not_less_Least by blast
  qed
  ultimately show ?thesis by blast
qed

subsection \<open>The two guards\<close>

text \<open>
  \<open>compute_wrapped_radius\<close> tests \<open>reached_from_source\<close> and \<open>local_radius\<close> tests
  \<open>region_that_arrived_top\<close>. On a node that breaks the ownership invariant the two
  tests disagree: the node below has no source, and \<open>local_radius\<close> still answers with the
  radius of its top region.
\<close>

lemma local_radius_orphan:
  "reached_from_source example_orphan = None
   \<and> \<not> node_invariant example_orphan
   \<and> compute_wrapped_radius example_heap example_orphan = Some (Inr 0)
   \<and> local_radius example_heap example_orphan = Some (Inr \<lparr>intercept = - 20, rate = 1\<rparr>)"
  by (simp add: example_orphan_def example_node_def example_heap_def node_invariant_def
      compute_wrapped_radius_def local_radius_def varying_plus_def)

section \<open>The claims\<close>

text \<open>
  C1. A reached node (\<open>reached_from_source\<close> non-null) whose top region is allocated and
  lies \<open>d\<close> parent steps above its immediate region: \<open>local_radius\<close> returns the top
  region's radius, as a varying quantity, shifted by the sum of the y-intercepts of the
  \<open>d\<close> regions from the immediate region up to (without) the top, minus
  \<open>radius_of_arrival\<close>. Evaluated at any time, it is the top radius at that time plus that
  sum minus the arrival radius.
\<close>

theorem local_radius_reached:
  assumes "reached_from_source n \<noteq> None"
    and "region_that_arrived_top n = Some t"
    and "h t = Some top_region"
    and "nesting_depth h (region_that_arrived n) (region_that_arrived_top n) d"
  shows "local_radius h n =
           Some (Inr (varying_plus (radius top_region)
                        (frozen_radii h d (region_that_arrived n) - radius_of_arrival n)))
         \<and> (\<forall>time. get_distance_at_time
                      (varying_plus (radius top_region)
                         (frozen_radii h d (region_that_arrived n) - radius_of_arrival n)) time =
                    get_distance_at_time (radius top_region) time
                      + frozen_radii h d (region_that_arrived n) - radius_of_arrival n)"
proof -
  from assms(4) have "wrapped_radius_loop h (region_that_arrived_top n) (region_that_arrived n) 0 =
      Some (Inr (frozen_radii h d (region_that_arrived n)))"
    using loop_depth [of h "region_that_arrived n" "region_that_arrived_top n" d 0] by simp
  with assms(1) have "compute_wrapped_radius h n =
      Some (Inr (frozen_radii h d (region_that_arrived n) - radius_of_arrival n))"
    by (auto simp: compute_wrapped_radius_def)
  with assms(2,3) show ?thesis
    by (simp add: local_radius_def get_distance_at_time_def varying_plus_def)
qed

theorem local_radius_reached_witness:
  "reached_from_source example_node \<noteq> None
   \<and> region_that_arrived_top example_node = Some 2
   \<and> example_heap 2 = Some \<lparr>radius = \<lparr>intercept = - 20, rate = 1\<rparr>, blossom_parent = None\<rparr>
   \<and> nesting_depth example_heap (region_that_arrived example_node)
        (region_that_arrived_top example_node) 2
   \<and> local_radius example_heap example_node = Some (Inr \<lparr>intercept = - 10, rate = 1\<rparr>)"
proof -
  have a: "reached_from_source example_node \<noteq> None" by (simp add: example_node_def)
  have b: "region_that_arrived_top example_node = Some 2" by (simp add: example_node_def)
  have c: "example_heap 2 = Some \<lparr>radius = \<lparr>intercept = - 20, rate = 1\<rparr>, blossom_parent = None\<rparr>"
    by (simp add: example_heap_def)
  have d: "nesting_depth example_heap (region_that_arrived example_node)
        (region_that_arrived_top example_node) 2"
    by (simp add: example_heap_def example_node_def numeral_2_eq_2)
  have e: "frozen_radii example_heap 2 (region_that_arrived example_node) = 12"
    by (simp add: example_heap_def example_node_def numeral_2_eq_2 y_intercept_def)
  have f: "radius_of_arrival example_node = 2" by (simp add: example_node_def)
  from local_radius_reached [OF a b c d] a b c d show ?thesis
    by (simp add: e f varying_plus_def)
qed

text \<open>
  C8. When \<open>region_that_arrived_top\<close> is reachable from \<open>region_that_arrived\<close> along
  \<open>blossom_parent\<close> pointers (in \<open>k\<close> steps, say), the walk of \<open>compute_wrapped_radius\<close>
  returns, and its loop body runs exactly \<open>d\<close> times, where \<open>d \<le> k\<close> is the nesting
  depth: the least number of parent steps that lead from the immediate region to the top
  region. The count depends on the parent chain alone.
\<close>

theorem walk_terminates_at_depth:
  assumes "ancestor h k (region_that_arrived n) = Some (region_that_arrived_top n)"
  shows "\<exists>d\<le>k.
           nesting_depth h (region_that_arrived n) (region_that_arrived_top n) d
         \<and> ancestor h d (region_that_arrived n) = Some (region_that_arrived_top n)
         \<and> (\<forall>j<d. ancestor h j (region_that_arrived n) \<noteq> Some (region_that_arrived_top n))
         \<and> wrapped_radius_loop_steps h (region_that_arrived_top n) (region_that_arrived n) 0 0 =
             Some (Inr (frozen_radii h d (region_that_arrived n), d))
         \<and> wrapped_radius_loop h (region_that_arrived_top n) (region_that_arrived n) 0 =
             Some (Inr (frozen_radii h d (region_that_arrived n)))
         \<and> compute_wrapped_radius h n =
             Some (Inr (if reached_from_source n = None then 0
                        else frozen_radii h d (region_that_arrived n) - radius_of_arrival n))"
proof -
  let ?r = "region_that_arrived n" and ?t = "region_that_arrived_top n"
  from ancestor_depth [OF assms] obtain d where dk: "d \<le> k" and dep: "nesting_depth h ?r ?t d"
    by blast
  have steps: "wrapped_radius_loop_steps h ?t ?r 0 0 = Some (Inr (frozen_radii h d ?r, d))"
    using loop_steps_depth [OF dep, of 0 0] by simp
  have loop: "wrapped_radius_loop h ?t ?r 0 = Some (Inr (frozen_radii h d ?r))"
    using loop_depth [OF dep, of 0] by simp
  have cwr: "compute_wrapped_radius h n =
      Some (Inr (if reached_from_source n = None then 0 else frozen_radii h d ?r - radius_of_arrival n))"
    by (simp add: compute_wrapped_radius_def loop)
  have least: "\<forall>j<d. ancestor h j ?r \<noteq> Some ?t"
    using depth_least [OF dep] by blast
  from dk dep depth_ancestor [OF dep] least steps loop cwr show ?thesis by blast
qed

theorem walk_terminates_at_depth_witness:
  "ancestor example_heap 2 (region_that_arrived example_node) =
     Some (region_that_arrived_top example_node)
   \<and> wrapped_radius_loop_steps example_heap (region_that_arrived_top example_node)
        (region_that_arrived example_node) 0 0 = Some (Inr (12, 2))
   \<and> compute_wrapped_radius example_heap example_node = Some (Inr 10)"
proof -
  have a: "ancestor example_heap 2 (region_that_arrived example_node) =
     Some (region_that_arrived_top example_node)"
    by (simp add: example_heap_def example_node_def numeral_2_eq_2)
  from walk_terminates_at_depth [OF a] obtain d where
    dep: "nesting_depth example_heap (region_that_arrived example_node)
            (region_that_arrived_top example_node) d"
    and steps: "wrapped_radius_loop_steps example_heap (region_that_arrived_top example_node)
        (region_that_arrived example_node) 0 0 =
          Some (Inr (frozen_radii example_heap d (region_that_arrived example_node), d))"
    and cwr: "compute_wrapped_radius example_heap example_node =
             Some (Inr (if reached_from_source example_node = None then 0
                        else frozen_radii example_heap d (region_that_arrived example_node)
                               - radius_of_arrival example_node))"
    by blast
  have d2: "nesting_depth example_heap (region_that_arrived example_node)
        (region_that_arrived_top example_node) 2"
    by (simp add: example_heap_def example_node_def numeral_2_eq_2)
  from depth_unique [OF dep d2] have "d = 2" .
  moreover have "frozen_radii example_heap 2 (region_that_arrived example_node) = 12"
    by (simp add: example_heap_def example_node_def numeral_2_eq_2 y_intercept_def)
  moreover have "reached_from_source example_node \<noteq> None" "radius_of_arrival example_node = 2"
    by (simp_all add: example_node_def)
  ultimately show ?thesis using a steps cwr by simp
qed

text \<open>
  C2. When \<open>target\<close> occurs in the adjacency list, \<open>index_of_neighbor\<close> returns a
  position \<open>k\<close> of the list with \<open>neighbors[k] == target\<close> (the first one); when it
  does not occur, \<open>index_of_neighbor\<close> returns no value and fails with
  \<open>std::invalid_argument\<close>.
\<close>

theorem index_of_neighbor_correct:
  "(target \<in> set (neighbors n) \<longrightarrow>
      (\<exists>k. index_of_neighbor n target = Inr k \<and> k < length (neighbors n)
           \<and> neighbors n ! k = target \<and> (\<forall>j<k. neighbors n ! j \<noteq> target)))
   \<and> (target \<notin> set (neighbors n) \<longrightarrow> index_of_neighbor n target = Inl InvalidArgument)"
proof (intro conjI impI)
  assume "target \<in> set (neighbors n)"
  from first_occurrence [OF this] obtain i where i: "i < length (neighbors n)"
    "neighbors n ! i = target" "\<forall>j<i. neighbors n ! j \<noteq> target"
    by blast
  then have "index_of_neighbor_loop (neighbors n) target 0 = Inr i"
    by (intro index_of_neighbor_loop_first) simp_all
  with i show "\<exists>k. index_of_neighbor n target = Inr k \<and> k < length (neighbors n)
           \<and> neighbors n ! k = target \<and> (\<forall>j<k. neighbors n ! j \<noteq> target)"
    by (simp add: index_of_neighbor_def)
next
  assume "target \<notin> set (neighbors n)"
  then have "\<And>j. j < length (neighbors n) \<Longrightarrow> neighbors n ! j \<noteq> target"
    by (metis nth_mem)
  then show "index_of_neighbor n target = Inl InvalidArgument"
    unfolding index_of_neighbor_def by (intro index_of_neighbor_loop_absent) simp
qed

theorem index_of_neighbor_correct_witness:
  "Some 6 \<in> set (neighbors example_node)
   \<and> index_of_neighbor example_node (Some 6) = Inr 1
   \<and> Some 9 \<notin> set (neighbors example_node)
   \<and> index_of_neighbor example_node (Some 9) = Inl InvalidArgument"
proof -
  have ns: "neighbors example_node = [None, Some 6, Some 8, Some 6]"
    by (simp add: example_node_def)
  have a: "Some 6 \<in> set (neighbors example_node)" by (simp add: ns)
  have b: "Some 9 \<notin> set (neighbors example_node)" by (simp add: ns)
  from index_of_neighbor_correct [of "Some 6" example_node] a obtain k where
    k: "index_of_neighbor example_node (Some 6) = Inr k" "k < length (neighbors example_node)"
       "neighbors example_node ! k = Some 6" "\<forall>j<k. neighbors example_node ! j \<noteq> Some 6"
    by blast
  have "k = 1"
  proof (rule ccontr)
    assume "k \<noteq> 1"
    moreover have "neighbors example_node ! 1 = Some 6" by (simp add: ns)
    ultimately have "k < 1" using k(4) by (metis linorder_neqE_nat)
    then have "k = 0" by simp
    with k(3) show False by (simp add: ns)
  qed
  with k(1) a b index_of_neighbor_correct [of "Some 9" example_node] show ?thesis by simp
qed

text \<open>
  C3. \<open>has_same_owner_as\<close> is true exactly when the two nodes have the same
  \<open>region_that_arrived_top\<close> pointer: true for two nodes that share their top region,
  false for nodes with distinct top regions.
\<close>

theorem has_same_owner_as_iff:
  "(has_same_owner_as a b \<longleftrightarrow> region_that_arrived_top a = region_that_arrived_top b)
   \<and> (region_that_arrived_top a = region_that_arrived_top b \<longrightarrow> has_same_owner_as a b)
   \<and> (region_that_arrived_top a \<noteq> region_that_arrived_top b \<longrightarrow> \<not> has_same_owner_as a b)"
  by (simp add: has_same_owner_as_def)

theorem has_same_owner_as_iff_witness:
  "region_that_arrived_top example_node = region_that_arrived_top example_other
   \<and> has_same_owner_as example_node example_other
   \<and> region_that_arrived_top example_node \<noteq> region_that_arrived_top (reset example_other)
   \<and> \<not> has_same_owner_as example_node (reset example_other)"
proof -
  have a: "region_that_arrived_top example_node = region_that_arrived_top example_other"
    by (simp add: example_node_def example_other_def)
  have b: "region_that_arrived_top example_node \<noteq> region_that_arrived_top (reset example_other)"
    by (simp add: example_node_def reset_def)
  from a b has_same_owner_as_iff [of example_node example_other]
    has_same_owner_as_iff [of example_node "reset example_other"]
  show ?thesis by blast
qed

text \<open>
  C4. For a node that has not been reached (\<open>reached_from_source\<close> null) and satisfies
  the ownership invariant of the data model, \<open>local_radius\<close> returns \<open>Varying32{0}\<close>,
  the quantity that is zero at every time; \<open>compute_wrapped_radius\<close> returns 0 for it.
\<close>

theorem local_radius_unreached:
  assumes "node_invariant n" and "reached_from_source n = None"
  shows "local_radius h n = Some (Inr (Varying32_const 0))
         \<and> (\<forall>time. get_distance_at_time (Varying32_const 0) time = 0)
         \<and> compute_wrapped_radius h n = Some (Inr 0)"
  using assms
  by (simp add: node_invariant_def local_radius_def compute_wrapped_radius_def
      Varying32_const_def get_distance_at_time_def)

theorem local_radius_unreached_witness:
  "node_invariant (fresh_node [Some 1] [7])
   \<and> reached_from_source (fresh_node [Some 1] [7]) = None
   \<and> local_radius example_heap (fresh_node [Some 1] [7]) = Some (Inr \<lparr>intercept = 0, rate = 0\<rparr>)"
proof -
  have a: "node_invariant (fresh_node [Some 1] [7])" by (simp add: node_invariant_def fresh_node_def)
  have b: "reached_from_source (fresh_node [Some 1] [7]) = None" by (simp add: fresh_node_def)
  from local_radius_unreached [OF a b, of example_heap] a b show ?thesis
    by (simp add: Varying32_const_def)
qed

text \<open>
  C5. After \<open>reset\<close> a node, whatever its state was, is the freshly constructed node with
  the same adjacency: the three tree pointers are null, the arrival radius, the cached
  radius and the observables accumulator are zero, no scheduled event is left in the
  tracker, and \<open>local_radius\<close>, \<open>compute_wrapped_radius\<close>, \<open>has_same_owner_as\<close> (on
  either side) and \<open>index_of_neighbor\<close> answer as they do for the fresh node.
\<close>

theorem reset_is_fresh:
  "reset n = fresh_node (neighbors n) (neighbor_weights n)
   \<and> reached_from_source (reset n) = None
   \<and> region_that_arrived (reset n) = None
   \<and> region_that_arrived_top (reset n) = None
   \<and> radius_of_arrival (reset n) = 0
   \<and> accumulated_radius_cached (reset n) = 0
   \<and> observables_crossed_from_source (reset n) = 0
   \<and> node_event_tracker (reset n) = {}
   \<and> local_radius h (reset n) = Some (Inr (Varying32_const 0))
   \<and> local_radius h (reset n) = local_radius h (fresh_node (neighbors n) (neighbor_weights n))
   \<and> compute_wrapped_radius h (reset n) = Some (Inr 0)
   \<and> compute_wrapped_radius h (reset n) =
       compute_wrapped_radius h (fresh_node (neighbors n) (neighbor_weights n))
   \<and> has_same_owner_as (reset n) other =
       has_same_owner_as (fresh_node (neighbors n) (neighbor_weights n)) other
   \<and> has_same_owner_as other (reset n) =
       has_same_owner_as other (fresh_node (neighbors n) (neighbor_weights n))
   \<and> index_of_neighbor (reset n) target =
       index_of_neighbor (fresh_node (neighbors n) (neighbor_weights n)) target"
proof -
  have eq: "reset n = fresh_node (neighbors n) (neighbor_weights n)"
    by (simp add: reset_def fresh_node_def tracker_clear_def)
  have "local_radius h (reset n) = Some (Inr (Varying32_const 0))"
    by (simp add: local_radius_def reset_def)
  moreover have "compute_wrapped_radius h (reset n) = Some (Inr 0)"
    by (simp add: compute_wrapped_radius_def reset_def)
  moreover have "reached_from_source (reset n) = None" "region_that_arrived (reset n) = None"
    "region_that_arrived_top (reset n) = None" "radius_of_arrival (reset n) = 0"
    "accumulated_radius_cached (reset n) = 0" "observables_crossed_from_source (reset n) = 0"
    "node_event_tracker (reset n) = {}"
    by (simp_all add: reset_def tracker_clear_def)
  ultimately show ?thesis using eq by simp
qed

text \<open>
  C7. Every operation of a node keeps the ownership invariant (\<open>region_that_arrived_top\<close>
  is non-null exactly when \<open>reached_from_source\<close> is); \<open>reset\<close> establishes it from any
  state by nulling both pointers. For a node that satisfies it the guards of
  \<open>compute_wrapped_radius\<close> and \<open>local_radius\<close> agree: an unreached node gets 0 from the
  first and the zero quantity from the second, and a reached node gets from \<open>local_radius\<close>
  the top region's radius shifted by what \<open>compute_wrapped_radius\<close> returns.
\<close>

theorem ownership_invariant:
  "(node_invariant n \<longrightarrow> node_invariant (node_after c n))
   \<and> node_invariant (reset n)
   \<and> reached_from_source (reset n) = None \<and> region_that_arrived_top (reset n) = None
   \<and> (node_invariant n \<longrightarrow>
        (region_that_arrived_top n = None) = (reached_from_source n = None)
        \<and> (reached_from_source n = None \<longrightarrow>
              compute_wrapped_radius h n = Some (Inr 0)
              \<and> local_radius h n = Some (Inr (Varying32_const 0)))
        \<and> (\<forall>t top_region w.
              reached_from_source n \<noteq> None \<and> region_that_arrived_top n = Some t
              \<and> h t = Some top_region \<and> compute_wrapped_radius h n = Some (Inr w) \<longrightarrow>
              local_radius h n = Some (Inr (varying_plus (radius top_region) w))))"
proof -
  have r: "node_invariant (reset n)" by (simp add: node_invariant_def reset_def)
  have "node_invariant n \<longrightarrow> node_invariant (node_after c n)"
    by (cases c) (simp_all add: r)
  moreover have "reached_from_source (reset n) = None" "region_that_arrived_top (reset n) = None"
    by (simp_all add: reset_def)
  moreover have "node_invariant n \<longrightarrow>
        (region_that_arrived_top n = None) = (reached_from_source n = None)"
    by (auto simp: node_invariant_def)
  moreover have "node_invariant n \<longrightarrow> reached_from_source n = None \<longrightarrow>
              compute_wrapped_radius h n = Some (Inr 0)
              \<and> local_radius h n = Some (Inr (Varying32_const 0))"
    by (auto simp: node_invariant_def local_radius_def compute_wrapped_radius_def)
  moreover have "\<forall>t top_region w.
              reached_from_source n \<noteq> None \<and> region_that_arrived_top n = Some t
              \<and> h t = Some top_region \<and> compute_wrapped_radius h n = Some (Inr w) \<longrightarrow>
              local_radius h n = Some (Inr (varying_plus (radius top_region) w))"
    by (simp add: local_radius_def)
  ultimately show ?thesis using r by blast
qed

theorem ownership_invariant_witness:
  "node_invariant example_node
   \<and> node_invariant (node_after Call_reset example_node)
   \<and> reached_from_source (reset example_node) = None
   \<and> compute_wrapped_radius example_heap (reset example_node) = Some (Inr 0)
   \<and> local_radius example_heap (reset example_node) = Some (Inr (Varying32_const 0))
   \<and> reached_from_source example_node \<noteq> None
   \<and> region_that_arrived_top example_node = Some 2
   \<and> compute_wrapped_radius example_heap example_node = Some (Inr 10)
   \<and> local_radius example_heap example_node = Some (Inr \<lparr>intercept = - 10, rate = 1\<rparr>)"
proof -
  have inv: "node_invariant example_node"
    by (simp add: node_invariant_def example_node_def)
  have a: "reached_from_source example_node \<noteq> None"
    and b: "region_that_arrived_top example_node = Some 2"
    by (simp_all add: example_node_def)
  have c: "example_heap 2 = Some \<lparr>radius = \<lparr>intercept = - 20, rate = 1\<rparr>, blossom_parent = None\<rparr>"
    by (simp add: example_heap_def)
  have dep: "nesting_depth example_heap (region_that_arrived example_node)
      (region_that_arrived_top example_node) 2"
    by (simp add: example_heap_def example_node_def numeral_2_eq_2)
  have fr: "frozen_radii example_heap 2 (region_that_arrived example_node) = 12"
    by (simp add: example_heap_def example_node_def numeral_2_eq_2 y_intercept_def)
  have "wrapped_radius_loop example_heap (region_that_arrived_top example_node)
      (region_that_arrived example_node) 0 = Some (Inr 12)"
    using loop_depth [OF dep, of 0] by (simp add: fr)
  then have w: "compute_wrapped_radius example_heap example_node = Some (Inr 10)"
    by (simp add: compute_wrapped_radius_def example_node_def)
  note first = ownership_invariant [of example_node Call_reset example_heap]
  note second = ownership_invariant [of "reset example_node" Call_reset example_heap]
  from first inv have r: "node_invariant (node_after Call_reset example_node)"
    and rn: "reached_from_source (reset example_node) = None"
    and ri: "node_invariant (reset example_node)"
    by blast+
  from second ri rn have z: "compute_wrapped_radius example_heap (reset example_node) = Some (Inr 0)"
    "local_radius example_heap (reset example_node) = Some (Inr (Varying32_const 0))"
    by blast+
  from first inv a b c w have "local_radius example_heap example_node =
      Some (Inr (varying_plus (radius \<lparr>radius = \<lparr>intercept = - 20, rate = 1\<rparr>,
                                       blossom_parent = None\<rparr>) 10))"
    by blast
  then have l: "local_radius example_heap example_node = Some (Inr \<lparr>intercept = - 10, rate = 1\<rparr>)"
    by (simp add: varying_plus_def)
  from inv r rn z a b w l show ?thesis by blast
qed

text \<open>
  C9. Two unreached nodes (\<open>reached_from_source\<close> null on both, hence, by the ownership
  invariant, \<open>region_that_arrived_top\<close> null on both) are reported by
  \<open>has_same_owner_as\<close> as having the same owner, though neither has an owning region;
  so are any two nodes after \<open>reset\<close>.
\<close>

theorem unreached_nodes_same_owner:
  assumes "node_invariant a" and "node_invariant b"
    and "reached_from_source a = None" and "reached_from_source b = None"
  shows "region_that_arrived_top a = None \<and> region_that_arrived_top b = None
         \<and> has_same_owner_as a b
         \<and> has_same_owner_as (reset a) (reset b)"
  using assms by (simp add: node_invariant_def has_same_owner_as_def reset_def)

theorem unreached_nodes_same_owner_witness:
  "node_invariant (fresh_node [Some 1] [7])
   \<and> node_invariant (reset example_node)
   \<and> reached_from_source (fresh_node [Some 1] [7]) = None
   \<and> reached_from_source (reset example_node) = None
   \<and> has_same_owner_as (fresh_node [Some 1] [7]) (reset example_node)"
proof -
  have a: "node_invariant (fresh_node [Some 1] [7])"
    by (simp add: node_invariant_def fresh_node_def)
  have b: "node_invariant (reset example_node)"
    by (simp add: node_invariant_def reset_def)
  have c: "reached_from_source (fresh_node [Some 1] [7]) = None"
    by (simp add: fresh_node_def)
  have d: "reached_from_source (reset example_node) = None"
    by (simp add: reset_def)
  from unreached_nodes_same_owner [OF a b c d] a b c d show ?thesis by blast
qed

text \<open>
  C10. \<open>reset\<close> leaves the graph structure of the node alone: the adjacency list and the
  edge data beside it are what they were (and so is anything a derived class adds), and
  \<open>index_of_neighbor\<close> gives the same result, value or failure, before and after.
\<close>

theorem reset_frame:
  "neighbors (reset n) = neighbors n
   \<and> neighbor_weights (reset n) = neighbor_weights n
   \<and> DetectorNode.more (reset n) = DetectorNode.more n
   \<and> index_of_neighbor (reset n) target = index_of_neighbor n target"
  by (simp add: reset_def index_of_neighbor_def)

end
